theory Spec2Isabelle
  imports Main "HOL-Library.Word"
begin

section \<open>JavaScript values held by pins\<close>

text \<open>
  The simulator stores booleans in pins, but nothing in the source enforces it:
  \<^verbatim>\<open>exportCircuit\<close> writes \<^verbatim>\<open>c.value || c.inputs\<close>, so an array can become the
  value of an INPUT peg, and reading past the end of an array gives \<^verbatim>\<open>undefined\<close>.
  Pin values are therefore a small universe of JavaScript values. Arrays are held
  by value (their contents); strict inequality of two arrays is by reference in
  JavaScript and structural here, and no statement below compares two arrays.
\<close>

datatype jsval = JUndefined | JBool bool | JArr "jsval list"

datatype error = UnknownComponentType string | TypeError | RangeError

fun truthy :: "jsval \<Rightarrow> bool" where
  "truthy JUndefined = False"
| "truthy (JBool b) = b"
| "truthy (JArr vs) = True"

definition js_not :: "jsval \<Rightarrow> jsval" where
  "js_not a = JBool (\<not> truthy a)"

definition js_and :: "jsval \<Rightarrow> jsval \<Rightarrow> jsval" where
  "js_and a b = (if truthy a then b else a)"

definition js_or :: "jsval \<Rightarrow> jsval \<Rightarrow> jsval" where
  "js_or a b = (if truthy a then a else b)"

definition js_strict_neq :: "jsval \<Rightarrow> jsval \<Rightarrow> jsval" where
  "js_strict_neq a b = JBool (a \<noteq> b)"

text \<open>\<^verbatim>\<open>xs[i]\<close> for a natural index: an element, \<^verbatim>\<open>undefined\<close> past the end.\<close>

definition nth_or_undefined :: "jsval list \<Rightarrow> nat \<Rightarrow> jsval" where
  "nth_or_undefined xs i = (if i < length xs then xs ! i else JUndefined)"

text \<open>\<^verbatim>\<open>v[i]\<close>: a property read on \<^verbatim>\<open>undefined\<close> throws, on a boolean it is
  \<^verbatim>\<open>undefined\<close>.\<close>

fun js_get :: "jsval \<Rightarrow> nat \<Rightarrow> error + jsval" where
  "js_get JUndefined i = Inl TypeError"
| "js_get (JBool b) i = Inr JUndefined"
| "js_get (JArr xs) i = Inr (nth_or_undefined xs i)"

text \<open>\<^verbatim>\<open>v[i] = w\<close> in strict code (class bodies are strict): an array grows to hold
  the index, the skipped slots reading \<^verbatim>\<open>undefined\<close>; a primitive target throws.\<close>

fun js_set :: "jsval \<Rightarrow> nat \<Rightarrow> jsval \<Rightarrow> error + jsval" where
  "js_set JUndefined i w = Inl TypeError"
| "js_set (JBool b) i w = Inl TypeError"
| "js_set (JArr xs) i w =
     Inr (JArr (if i < length xs then xs[i := w]
                else xs @ replicate (i - length xs) JUndefined @ [w]))"

text \<open>Array destructuring \<^verbatim>\<open>const [a, b, ...] = v\<close>: only an array is iterable here.\<close>

fun js_iter :: "jsval \<Rightarrow> error + jsval list" where
  "js_iter (JArr xs) = Inr xs"
| "js_iter v = Inl TypeError"

section \<open>Components\<close>

datatype ctype = AND | OR | XOR | NOT | INPUT | OUTPUT | HALF_ADDER | FULL_ADDER | MUX_4TO1

text \<open>
  One record for the class hierarchy under \<^verbatim>\<open>CircuitComponent\<close>. A field a class does
  not declare is \<open>JUndefined\<close>, \<open>None\<close> or \<open>[]\<close>. \<open>c_output\<close> is the field
  \<^verbatim>\<open>output\<close> of the gates, \<open>c_value\<close> the field \<^verbatim>\<open>value\<close> of the INPUT and OUTPUT
  pegs, \<open>cid\<close> the field \<^verbatim>\<open>id\<close>, \<open>pos_x\<close> and \<open>pos_y\<close> the position, which
  the code only stores and copies. \<open>inputs\<close> and \<open>outputs\<close> are values, not lists:
  \<^verbatim>\<open>importCircuit\<close> may assign a boolean to \<^verbatim>\<open>inputs\<close>. The select and data pins
  of the multiplexer are only ever written by its constructor and by outside
  callers; the select pins are booleans.
\<close>

record component =
  cid :: string
  ctype :: ctype
  pos_x :: int
  pos_y :: int
  inputs :: jsval
  outputs :: jsval
  selected :: bool
  width :: int
  height :: int
  c_output :: jsval
  c_value :: jsval
  label :: "string option"
  dataInputs :: "jsval list"
  selectInputs :: "bool list"

definition CircuitComponent :: "string \<Rightarrow> ctype \<Rightarrow> int \<Rightarrow> int \<Rightarrow> component" where
  "CircuitComponent i t px py =
     \<lparr>cid = i, ctype = t, pos_x = px, pos_y = py, inputs = JArr [], outputs = JArr [],
      selected = False, width = 60, height = 40, c_output = JUndefined,
      c_value = JUndefined, label = None, dataInputs = [], selectInputs = []\<rparr>"

definition ANDGate :: "string \<Rightarrow> int \<Rightarrow> int \<Rightarrow> component" where
  "ANDGate i px py =
     (CircuitComponent i AND px py)\<lparr>inputs := JArr [JBool False, JBool False], c_output := JBool False\<rparr>"

definition ORGate :: "string \<Rightarrow> int \<Rightarrow> int \<Rightarrow> component" where
  "ORGate i px py =
     (CircuitComponent i OR px py)\<lparr>inputs := JArr [JBool False, JBool False], c_output := JBool False\<rparr>"

definition XORGate :: "string \<Rightarrow> int \<Rightarrow> int \<Rightarrow> component" where
  "XORGate i px py =
     (CircuitComponent i XOR px py)\<lparr>inputs := JArr [JBool False, JBool False], c_output := JBool False\<rparr>"

definition NOTGate :: "string \<Rightarrow> int \<Rightarrow> int \<Rightarrow> component" where
  "NOTGate i px py =
     (CircuitComponent i NOT px py)\<lparr>inputs := JArr [JBool False], c_output := JBool False, width := 50\<rparr>"

definition InputComponent :: "string \<Rightarrow> string \<Rightarrow> int \<Rightarrow> int \<Rightarrow> component" where
  "InputComponent i l px py =
     (CircuitComponent i INPUT px py)\<lparr>label := Some l, c_value := JBool False, width := 40\<rparr>"

definition OutputComponent :: "string \<Rightarrow> string \<Rightarrow> int \<Rightarrow> int \<Rightarrow> component" where
  "OutputComponent i l px py =
     (CircuitComponent i OUTPUT px py)\<lparr>label := Some l, c_value := JBool False, width := 50\<rparr>"

definition HalfAdder :: "string \<Rightarrow> int \<Rightarrow> int \<Rightarrow> component" where
  "HalfAdder i px py =
     (CircuitComponent i HALF_ADDER px py)\<lparr>width := 80, height := 60,
        inputs := JArr [JBool False, JBool False], outputs := JArr [JBool False, JBool False]\<rparr>"

definition FullAdder :: "string \<Rightarrow> int \<Rightarrow> int \<Rightarrow> component" where
  "FullAdder i px py =
     (CircuitComponent i FULL_ADDER px py)\<lparr>width := 80, height := 80,
        inputs := JArr [JBool False, JBool False, JBool False],
        outputs := JArr [JBool False, JBool False]\<rparr>"

definition Multiplexer4to1 :: "string \<Rightarrow> int \<Rightarrow> int \<Rightarrow> component" where
  "Multiplexer4to1 i px py =
     (CircuitComponent i MUX_4TO1 px py)\<lparr>width := 80, height := 100,
        dataInputs := [JBool False, JBool False, JBool False, JBool False],
        selectInputs := [False, False], c_output := JBool False\<rparr>"

text \<open>Sequencing of steps that may throw.\<close>

definition js_bind :: "error + 'a \<Rightarrow> ('a \<Rightarrow> error + 'b) \<Rightarrow> error + 'b" where
  "js_bind m f = (case m of Inl e \<Rightarrow> Inl e | Inr v \<Rightarrow> f v)"

text \<open>
  \<^verbatim>\<open>compute()\<close> of each class: the value returned and the component as the call
  leaves it. The base class method throws, but no instance of the base class is
  ever created, so it is no case of \<open>ctype\<close>.
\<close>

definition compute :: "component \<Rightarrow> error + (jsval \<times> component)" where
  "compute c =
     (case ctype c of
        AND \<Rightarrow>
          js_bind (js_get (inputs c) 0) (\<lambda>a.
          js_bind (js_get (inputs c) 1) (\<lambda>b.
          Inr (js_and a b, c\<lparr>c_output := js_and a b\<rparr>)))
      | OR \<Rightarrow>
          js_bind (js_get (inputs c) 0) (\<lambda>a.
          js_bind (js_get (inputs c) 1) (\<lambda>b.
          Inr (js_or a b, c\<lparr>c_output := js_or a b\<rparr>)))
      | XOR \<Rightarrow>
          js_bind (js_get (inputs c) 0) (\<lambda>a.
          js_bind (js_get (inputs c) 1) (\<lambda>b.
          Inr (js_strict_neq a b, c\<lparr>c_output := js_strict_neq a b\<rparr>)))
      | NOT \<Rightarrow>
          js_bind (js_get (inputs c) 0) (\<lambda>a.
          Inr (js_not a, c\<lparr>c_output := js_not a\<rparr>))
      | INPUT \<Rightarrow> Inr (c_value c, c)
      | OUTPUT \<Rightarrow> Inr (c_value c, c)
      | HALF_ADDER \<Rightarrow>
          js_bind (js_iter (inputs c)) (\<lambda>xs.
          let a = nth_or_undefined xs 0; b = nth_or_undefined xs 1 in
          js_bind (js_set (outputs c) 0 (js_strict_neq a b)) (\<lambda>o1.
          js_bind (js_set o1 1 (js_and a b)) (\<lambda>o2.
          Inr (o2, c\<lparr>outputs := o2\<rparr>))))
      | FULL_ADDER \<Rightarrow>
          js_bind (js_iter (inputs c)) (\<lambda>xs.
          let a = nth_or_undefined xs 0; b = nth_or_undefined xs 1;
              cin = nth_or_undefined xs 2 in
          js_bind (js_set (outputs c) 0 (js_strict_neq (js_strict_neq a b) cin)) (\<lambda>o1.
          js_bind (js_set o1 1 (js_or (js_and a b) (js_and cin (js_strict_neq a b)))) (\<lambda>o2.
          Inr (o2, c\<lparr>outputs := o2\<rparr>))))
      | MUX_4TO1 \<Rightarrow>
          (let v = (if length (selectInputs c) < 2 then JUndefined
                    else nth_or_undefined (dataInputs c)
                           ((if selectInputs c ! 1 then 1 else 0) * 2
                            + (if selectInputs c ! 0 then 1 else 0)))
           in Inr (v, c\<lparr>c_output := v\<rparr>)))"

text \<open>\<^verbatim>\<open>toggle()\<close> and \<^verbatim>\<open>setValue(value)\<close> of the INPUT and OUTPUT pegs.\<close>

definition toggle :: "component \<Rightarrow> jsval \<times> component" where
  "toggle c = (js_not (c_value c), c\<lparr>c_value := js_not (c_value c)\<rparr>)"

definition setValue :: "jsval \<Rightarrow> component \<Rightarrow> component" where
  "setValue v c = c\<lparr>c_value := v\<rparr>"

section \<open>The circuit graph\<close>

text \<open>
  Components are objects: a connection and the selection hold references to them,
  and two components may carry the same \<^verbatim>\<open>id\<close>. The model keeps the objects in a
  store, \<open>heap\<close>, addressed by position; \<open>components\<close>, \<open>c_from\<close>, \<open>c_to\<close> and
  \<open>selectedComponent\<close> hold addresses. An object that is no longer referenced stays
  in the store, and \<^verbatim>\<open>addComponent\<close> puts a new object behind the last one, so the
  addresses a graph holds stay valid. The canvas, the display options, the drag
  state and the animation frame do not touch the graph and are left out, as is
  the drawing done by \<^verbatim>\<open>render()\<close>.
\<close>

record connection =
  c_from :: nat
  fromOutput :: nat
  c_to :: nat
  toInput :: nat
  conn_value :: jsval
  animated :: bool

definition CircuitConnection :: "nat \<Rightarrow> nat \<Rightarrow> nat \<Rightarrow> nat \<Rightarrow> connection" where
  "CircuitConnection f fo t ti =
     \<lparr>c_from = f, fromOutput = fo, c_to = t, toInput = ti, conn_value = JBool False,
      animated = False\<rparr>"

record simulator =
  heap :: "component list"
  components :: "nat list"
  connections :: "connection list"
  selectedComponent :: "nat option"
  isSimulating :: bool

definition new_simulator :: simulator where
  "new_simulator =
     \<lparr>heap = [], components = [], connections = [], selectedComponent = None,
      isSimulating = False\<rparr>"

definition comp_id :: "simulator \<Rightarrow> nat \<Rightarrow> string" where
  "comp_id s a = cid (heap s ! a)"

text \<open>\<^verbatim>\<open>String.prototype.toUpperCase\<close> on ASCII text.\<close>

definition upper_char :: "char \<Rightarrow> char" where
  "upper_char c =
     (let n = (of_char c :: nat) in if 97 \<le> n \<and> n \<le> 122 then char_of (n - 32) else c)"

definition toUpperCase :: "string \<Rightarrow> string" where
  "toUpperCase s = map upper_char s"

text \<open>
  \<^verbatim>\<open>addComponent(type, id, x = 100, y = 100, options = {})\<close>. An absent argument is
  \<open>None\<close>; \<open>l\<close> is \<^verbatim>\<open>options.label\<close>. The result is the error thrown or the address
  of the new component, with the simulator as the call leaves it.
\<close>

definition make_component ::
  "string \<Rightarrow> string \<Rightarrow> int \<Rightarrow> int \<Rightarrow> string option \<Rightarrow> component option" where
  "make_component ty i px py l =
     (let t = toUpperCase ty in
      if t = ''AND'' then Some (ANDGate i px py)
      else if t = ''OR'' then Some (ORGate i px py)
      else if t = ''XOR'' then Some (XORGate i px py)
      else if t = ''NOT'' then Some (NOTGate i px py)
      else if t = ''INPUT'' then
        Some (InputComponent i (case l of None \<Rightarrow> ''IN'' | Some n \<Rightarrow> if n = [] then ''IN'' else n) px py)
      else if t = ''OUTPUT'' then
        Some (OutputComponent i (case l of None \<Rightarrow> ''OUT'' | Some n \<Rightarrow> if n = [] then ''OUT'' else n) px py)
      else None)"

definition addComponent ::
  "string \<Rightarrow> string \<Rightarrow> int option \<Rightarrow> int option \<Rightarrow> string option \<Rightarrow> simulator
     \<Rightarrow> (error + nat) \<times> simulator" where
  "addComponent ty i x y l s =
     (case make_component ty i (case x of None \<Rightarrow> 100 | Some v \<Rightarrow> v)
             (case y of None \<Rightarrow> 100 | Some v \<Rightarrow> v) l of
        None \<Rightarrow> (Inl (UnknownComponentType ty), s)
      | Some c \<Rightarrow>
          (Inr (length (heap s)),
           s\<lparr>heap := heap s @ [c], components := components s @ [length (heap s)]\<rparr>))"

text \<open>\<^verbatim>\<open>Array.prototype.findIndex\<close>, with \<open>None\<close> for \<^verbatim>\<open>-1\<close>.\<close>

fun findIndex :: "('a \<Rightarrow> bool) \<Rightarrow> 'a list \<Rightarrow> nat option" where
  "findIndex P [] = None"
| "findIndex P (x # xs) =
     (if P x then Some 0 else map_option Suc (findIndex P xs))"

definition removeComponent :: "string \<Rightarrow> simulator \<Rightarrow> simulator" where
  "removeComponent i s =
     (case findIndex (\<lambda>a. comp_id s a = i) (components s) of
        None \<Rightarrow> s
      | Some index \<Rightarrow>
          s\<lparr>connections :=
              filter (\<lambda>conn. comp_id s (c_from conn) \<noteq> i \<and> comp_id s (c_to conn) \<noteq> i)
                (connections s),
            components := take index (components s) @ drop (Suc index) (components s),
            selectedComponent :=
              (case selectedComponent s of
                 None \<Rightarrow> None
               | Some a \<Rightarrow> if comp_id s a = i then None else Some a)\<rparr>)"

definition connectComponents ::
  "string \<Rightarrow> nat \<Rightarrow> string \<Rightarrow> nat \<Rightarrow> simulator \<Rightarrow> connection option \<times> simulator" where
  "connectComponents fromId fo toId ti s =
     (case (find (\<lambda>a. comp_id s a = fromId) (components s),
            find (\<lambda>a. comp_id s a = toId) (components s)) of
        (Some f, Some t) \<Rightarrow>
          (Some (CircuitConnection f fo t ti),
           s\<lparr>connections := connections s @ [CircuitConnection f fo t ti]\<rparr>)
      | _ \<Rightarrow> (None, s))"

definition getComponentById :: "string \<Rightarrow> simulator \<Rightarrow> nat option" where
  "getComponentById i s = find (\<lambda>a. comp_id s a = i) (components s)"

definition clear :: "simulator \<Rightarrow> simulator" where
  "clear s = s\<lparr>components := [], connections := [], selectedComponent := None,
               isSimulating := False\<rparr>"

definition selectComponent :: "nat option \<Rightarrow> simulator \<Rightarrow> simulator" where
  "selectComponent component s =
     (let s1 = (case selectedComponent s of
                  None \<Rightarrow> s
                | Some a \<Rightarrow> s\<lparr>heap := (heap s)[a := (heap s ! a)\<lparr>selected := False\<rparr>]\<rparr>);
          s2 = s1\<lparr>selectedComponent := component\<rparr>
      in case component of
           None \<Rightarrow> s2
         | Some a \<Rightarrow> s2\<lparr>heap := (heap s2)[a := (heap s2 ! a)\<lparr>selected := True\<rparr>]\<rparr>)"

section \<open>Evaluation order\<close>

text \<open>
  \<^verbatim>\<open>topologicalSort()\<close>: the closure \<^verbatim>\<open>visit\<close> and the \<^verbatim>\<open>forEach\<close> that calls it,
  threading the set \<^verbatim>\<open>visited\<close> and the array \<^verbatim>\<open>result\<close>. \<open>idf\<close> reads the id of
  the component at an address, \<open>conns\<close> is \<^verbatim>\<open>this.connections\<close>.
\<close>

definition feeders :: "(nat \<Rightarrow> string) \<Rightarrow> connection list \<Rightarrow> nat \<Rightarrow> nat list" where
  "feeders idf conns a = map c_from (filter (\<lambda>conn. idf (c_to conn) = idf a) conns)"

function visit :: "(nat \<Rightarrow> string) \<Rightarrow> connection list \<Rightarrow> nat
                     \<Rightarrow> string set \<times> nat list \<Rightarrow> string set \<times> nat list"
  and visit_each :: "(nat \<Rightarrow> string) \<Rightarrow> connection list \<Rightarrow> nat list
                     \<Rightarrow> string set \<times> nat list \<Rightarrow> string set \<times> nat list" where
  "visit idf conns a (visited, result) =
     (if idf a \<in> visited then (visited, result)
      else (case visit_each idf conns (feeders idf conns a) (insert (idf a) visited, result) of
              (visited', result') \<Rightarrow> (visited', result' @ [a])))"
| "visit_each idf conns [] st = st"
| "visit_each idf conns (a # as) st = visit_each idf conns as (visit idf conns a st)"
  by pat_completeness auto

definition topologicalSort :: "simulator \<Rightarrow> nat list" where
  "topologicalSort s =
     snd (visit_each (comp_id s) (connections s) (components s) ({}, []))"

section \<open>Simulation\<close>

text \<open>
  A \<^verbatim>\<open>forEach\<close> whose body may throw: the loop stops at the first exception and
  keeps what the earlier iterations wrote.
\<close>

fun forEach_throwing ::
  "('a \<Rightarrow> 's \<Rightarrow> error option \<times> 's) \<Rightarrow> 'a list \<Rightarrow> 's \<Rightarrow> error option \<times> 's" where
  "forEach_throwing f [] s = (None, s)"
| "forEach_throwing f (x # xs) s =
     (case f x s of
        (Some e, s') \<Rightarrow> (Some e, s')
      | (None, s') \<Rightarrow> forEach_throwing f xs s')"

text \<open>The body of the first loop of \<^verbatim>\<open>simulate()\<close>, on the component at address \<open>a\<close>.\<close>

definition simulate_component :: "nat \<Rightarrow> simulator \<Rightarrow> error option \<times> simulator" where
  "simulate_component a s =
     (if ctype (heap s ! a) \<noteq> INPUT then
        (case compute (heap s ! a) of
           Inl e \<Rightarrow> (Some e, s)
         | Inr (v, c') \<Rightarrow> (None, s\<lparr>heap := (heap s)[a := c']\<rparr>))
      else (None, s))"

text \<open>The body of the second loop, on the connection at position \<open>k\<close> of
  \<^verbatim>\<open>this.connections\<close>.\<close>

definition update_connection :: "nat \<Rightarrow> simulator \<Rightarrow> error option \<times> simulator" where
  "update_connection k s =
     (let conn = connections s ! k in
      case compute (heap s ! c_from conn) of
        Inl e \<Rightarrow> (Some e, s)
      | Inr (v, cf) \<Rightarrow>
          (let s1 = s\<lparr>heap := (heap s)[c_from conn := cf],
                      connections := (connections s)[k := conn\<lparr>conn_value := v\<rparr>]\<rparr>;
               t = heap s1 ! c_to conn
           in if ctype t \<noteq> OUTPUT then
                (case js_set (inputs t) (toInput conn) v of
                   Inl e \<Rightarrow> (Some e, s1)
                 | Inr arr \<Rightarrow> (None, s1\<lparr>heap := (heap s1)[c_to conn := t\<lparr>inputs := arr\<rparr>]\<rparr>))
              else (None, s1\<lparr>heap := (heap s1)[c_to conn := setValue v t]\<rparr>)))"

definition evaluate_all :: "simulator \<Rightarrow> error option \<times> simulator" where
  "evaluate_all s = forEach_throwing simulate_component (topologicalSort s) s"

definition propagate_all :: "simulator \<Rightarrow> error option \<times> simulator" where
  "propagate_all s = forEach_throwing update_connection [0..<length (connections s)] s"

definition simulate :: "simulator \<Rightarrow> error option \<times> simulator" where
  "simulate s =
     (case evaluate_all s of
        (Some e, s') \<Rightarrow> (Some e, s')
      | (None, s') \<Rightarrow> propagate_all s')"

text \<open>\<^verbatim>\<open>component.toggle()\<close> on the object at address \<open>a\<close>.\<close>

definition toggle_at :: "nat \<Rightarrow> simulator \<Rightarrow> simulator" where
  "toggle_at a s = s\<lparr>heap := (heap s)[a := snd (toggle (heap s ! a))]\<rparr>"

section \<open>Export and import\<close>

record component_data =
  d_id :: string
  d_type :: string
  d_x :: "int option"
  d_y :: "int option"
  d_value :: jsval
  d_label :: "string option"

record connection_data =
  d_from :: string
  d_fromOutput :: nat
  d_to :: string
  d_toInput :: nat

record circuit_data =
  d_components :: "component_data list"
  d_connections :: "connection_data list"

fun type_name :: "ctype \<Rightarrow> string" where
  "type_name AND = ''AND''"
| "type_name OR = ''OR''"
| "type_name XOR = ''XOR''"
| "type_name NOT = ''NOT''"
| "type_name INPUT = ''INPUT''"
| "type_name OUTPUT = ''OUTPUT''"
| "type_name HALF_ADDER = ''HALF_ADDER''"
| "type_name FULL_ADDER = ''FULL_ADDER''"
| "type_name MUX_4TO1 = ''MUX_4TO1''"

definition export_component :: "component \<Rightarrow> component_data" where
  "export_component c =
     \<lparr>d_id = cid c, d_type = type_name (ctype c), d_x = Some (pos_x c), d_y = Some (pos_y c),
      d_value = js_or (c_value c) (inputs c), d_label = label c\<rparr>"

definition export_connection :: "simulator \<Rightarrow> connection \<Rightarrow> connection_data" where
  "export_connection s c =
     \<lparr>d_from = comp_id s (c_from c), d_fromOutput = fromOutput c,
      d_to = comp_id s (c_to c), d_toInput = toInput c\<rparr>"

definition exportCircuit :: "simulator \<Rightarrow> circuit_data" where
  "exportCircuit s =
     \<lparr>d_components = map (\<lambda>a. export_component (heap s ! a)) (components s),
      d_connections = map (export_connection s) (connections s)\<rparr>"

definition import_component :: "component_data \<Rightarrow> simulator \<Rightarrow> error option \<times> simulator" where
  "import_component d s =
     (case addComponent (d_type d) (d_id d) (d_x d) (d_y d) (d_label d) s of
        (Inl e, s') \<Rightarrow> (Some e, s')
      | (Inr a, s') \<Rightarrow>
          if d_value d \<noteq> JUndefined then
            (if ctype (heap s' ! a) = INPUT then
               (None, s'\<lparr>heap := (heap s')[a := (heap s' ! a)\<lparr>c_value := d_value d\<rparr>]\<rparr>)
             else (None, s'\<lparr>heap := (heap s')[a := (heap s' ! a)\<lparr>inputs := d_value d\<rparr>]\<rparr>))
          else (None, s'))"

definition import_connection :: "connection_data \<Rightarrow> simulator \<Rightarrow> simulator" where
  "import_connection d s =
     snd (connectComponents (d_from d) (d_fromOutput d) (d_to d) (d_toInput d) s)"

definition importCircuit :: "circuit_data \<Rightarrow> simulator \<Rightarrow> error option \<times> simulator" where
  "importCircuit d s =
     (case forEach_throwing import_component (d_components d) (clear s) of
        (Some e, s') \<Rightarrow> (Some e, s')
      | (None, s') \<Rightarrow> (None, fold import_connection (d_connections d) s'))"

section \<open>Truth tables\<close>

text \<open>
  \<^verbatim>\<open>(i >> (numInputs - 1 - index)) & 1\<close>: the operands of \<^verbatim>\<open>>>\<close> are taken as 32-bit
  integers, the shift count modulo 32, and the shift keeps the sign.
\<close>

definition row_bit :: "nat \<Rightarrow> nat \<Rightarrow> nat \<Rightarrow> nat" where
  "row_bit numInputs i index =
     unat (and (signed_drop_bit ((numInputs - 1 - index) mod 32) (word_of_nat i :: 32 word)) 1)"

text \<open>
  A row is an object, here a map from keys to cells: a key holds a number written by
  the loop over the input names, or what the caller's function returned. The values
  handed to the function are read back from the row, as the source does; the row
  holds every name by then, so the \<open>None\<close> case is never taken. The key
  \<^verbatim>\<open>__proto__\<close>, which a JavaScript object does not store like the others, is an
  ordinary key here; the statements below leave it out.
\<close>

datatype 'o cell = Num nat | Res 'o

definition row_inputs :: "string list \<Rightarrow> nat \<Rightarrow> (string \<rightharpoonup> nat)" where
  "row_inputs names i =
     fold (\<lambda>(inputName, index) row. row(inputName \<mapsto> row_bit (length names) i index))
       (zip names [0..<length names]) Map.empty"

definition make_row ::
  "string list \<Rightarrow> (nat list \<Rightarrow> 'o) option \<Rightarrow> nat \<Rightarrow> (string \<rightharpoonup> 'o cell)" where
  "make_row names outputFunction i =
     (let row = row_inputs names i in
      case outputFunction of
        None \<Rightarrow> map_option Num \<circ> row
      | Some f \<Rightarrow>
          (map_option Num \<circ> row)
            (''output'' \<mapsto> Res (f (map (\<lambda>name. case row name of Some b \<Rightarrow> b | None \<Rightarrow> 0) names))))"

text \<open>An array holds at most \<open>2 ^ 32 - 1\<close> elements: the push that would exceed it
  throws.\<close>

definition generate ::
  "string list \<Rightarrow> (nat list \<Rightarrow> 'o) option \<Rightarrow> error + (string \<rightharpoonup> 'o cell) list" where
  "generate names outputFunction =
     (let numRows = (2::nat) ^ length names in
      if numRows > 2 ^ 32 - 1 then Inl RangeError
      else Inr (map (make_row names outputFunction) [0..<numRows]))"

section \<open>Notions used in the statements\<close>

text \<open>
  \<open>pending\<close> counts the ids the depth-first visit can still mark: those of the
  components it was handed and of the components that feed a connection.
\<close>

definition pending :: "(nat \<Rightarrow> string) \<Rightarrow> connection list \<Rightarrow> nat list \<Rightarrow> string set \<Rightarrow> nat" where
  "pending idf conns as visited =
     card ((idf ` set as \<union> idf ` c_from ` set conns) - visited)"

text \<open>
  \<open>emits idf st st' new\<close>: going from \<open>st\<close> to \<open>st'\<close>, the visit appended \<open>new\<close> to
  the result, marked exactly the ids of \<open>new\<close>, all unmarked before and pairwise
  different.
\<close>

definition emits ::
  "(nat \<Rightarrow> string) \<Rightarrow> string set \<times> nat list \<Rightarrow> string set \<times> nat list \<Rightarrow> nat list \<Rightarrow> bool" where
  "emits idf st st' new =
     (snd st' = snd st @ new \<and> fst st' = fst st \<union> idf ` set new
      \<and> distinct (map idf new) \<and> idf ` set new \<inter> fst st = {})"








section \<open>Example circuits\<close>

text \<open>
  INPUT \<open>A\<close> feeding NOT \<open>n1\<close> feeding NOT \<open>n2\<close>, freshly built (addresses 0, 1
  and 2), and the same circuit after \<open>A\<close> was toggled on.
\<close>

definition chain_circuit :: simulator where
  "chain_circuit =
     (let s1 = snd (addComponent ''INPUT'' ''A'' None None None new_simulator);
          s2 = snd (addComponent ''NOT'' ''n1'' None None None s1);
          s3 = snd (addComponent ''NOT'' ''n2'' None None None s2);
          s4 = snd (connectComponents ''A'' 0 ''n1'' 0 s3)
      in snd (connectComponents ''n1'' 0 ''n2'' 0 s4))"

definition chain_on :: simulator where
  "chain_on = toggle_at 0 chain_circuit"

text \<open>The chain with \<open>n1\<close> selected.\<close>

definition chain_selected :: simulator where
  "chain_selected = selectComponent (Some 1) chain_circuit"

text \<open>Two NOT gates feeding each other.\<close>

definition loop_circuit :: simulator where
  "loop_circuit =
     (let s1 = snd (addComponent ''NOT'' ''n1'' None None None new_simulator);
          s2 = snd (addComponent ''NOT'' ''n2'' None None None s1);
          s3 = snd (connectComponents ''n1'' 0 ''n2'' 0 s2)
      in snd (connectComponents ''n2'' 0 ''n1'' 0 s3))"

text \<open>
  INPUT \<open>a\<close> (off) feeding NOT \<open>n\<close> feeding OUTPUT \<open>o\<close>, after one call of
  \<^verbatim>\<open>simulate()\<close>; then the same circuit exported, imported again and simulated once.
\<close>

definition display_circuit :: simulator where
  "display_circuit =
     (let s1 = snd (addComponent ''INPUT'' ''a'' None None None new_simulator);
          s2 = snd (addComponent ''NOT'' ''n'' None None None s1);
          s3 = snd (addComponent ''OUTPUT'' ''o'' None None None s2);
          s4 = snd (connectComponents ''a'' 0 ''n'' 0 s3);
          s5 = snd (connectComponents ''n'' 0 ''o'' 0 s4)
      in snd (simulate s5))"

definition display_reimported :: simulator where
  "display_reimported =
     snd (simulate (snd (importCircuit (exportCircuit display_circuit) display_circuit)))"

text \<open>One AND gate \<open>g\<close>, and what a second \<^verbatim>\<open>addComponent('AND', 'g')\<close> makes of it.\<close>

definition one_gate :: simulator where
  "one_gate = snd (addComponent ''AND'' ''g'' None None None new_simulator)"

definition twin_gates :: simulator where
  "twin_gates = snd (addComponent ''AND'' ''g'' None None None one_gate)"

text \<open>The caller's function \<^verbatim>\<open>(a, b) => a && b\<close> on the numbers of a row.\<close>

definition and_fn :: "nat list \<Rightarrow> nat" where
  "and_fn vs = (if vs ! 0 \<noteq> 0 then vs ! 1 else vs ! 0)"

section \<open>The depth-first visit terminates\<close>

text \<open>
  \<^verbatim>\<open>visit\<close> marks the id of a component on entry, so every descent marks an id that
  was not marked before, and \<open>pending\<close> decreases: the recursion ends on every graph,
  with or without a cycle.
\<close>

lemma visited_grows_dom:
  "visit_visit_each_dom (Inl (idf, conns, a, st)) \<Longrightarrow> fst st \<subseteq> fst (visit idf conns a st)"
  "visit_visit_each_dom (Inr (idf, conns, as, st)) \<Longrightarrow> fst st \<subseteq> fst (visit_each idf conns as st)"
proof (induction idf conns a st and idf conns as st rule: visit_visit_each.pinduct)
  case (1 idf conns a visited result)
  then show ?case
    by (auto simp: visit.psimps split: prod.splits)
next
  case (2 idf conns st)
  then show ?case by (simp add: visit_each.psimps)
next
  case (3 idf conns a as st)
  then show ?case by (auto simp: visit_each.psimps)
qed

lemma feeders_subset: "set (feeders idf conns a) \<subseteq> c_from ` set conns"
  by (auto simp: feeders_def)

lemma pending_enter:
  assumes "idf a \<notin> visited"
  shows "pending idf conns (feeders idf conns a) (insert (idf a) visited)
           < pending idf conns [a] visited"
proof -
  have "(idf ` set (feeders idf conns a) \<union> idf ` c_from ` set conns) - insert (idf a) visited
        \<subset> (idf ` set [a] \<union> idf ` c_from ` set conns) - visited"
    using assms feeders_subset [of idf conns a] by auto
  then show ?thesis
    unfolding pending_def by (intro psubset_card_mono) auto
qed

lemma pending_mono:
  assumes "set as \<subseteq> set bs" "visited \<subseteq> visited'"
  shows "pending idf conns as visited' \<le> pending idf conns bs visited"
  unfolding pending_def using assms by (intro card_mono) auto

termination visit
proof (relation "measures
    [\<lambda>x. case x of Inl (idf, conns, a, st) \<Rightarrow> pending idf conns [a] (fst st)
               | Inr (idf, conns, as, st) \<Rightarrow> pending idf conns as (fst st),
     \<lambda>x. case x of Inl (idf, conns, a, st) \<Rightarrow> 0
               | Inr (idf, conns, as, st) \<Rightarrow> Suc (length as)]", goal_cases)
  case 1
  show ?case by simp
next
  case 2
  then show ?case by (simp add: pending_enter)
next
  case (3 idf conns a as st)
  have "pending idf conns [a] (fst st) \<le> pending idf conns (a # as) (fst st)"
    by (rule pending_mono) auto
  then show ?case by auto
next
  case (4 idf conns a as st)
  have "pending idf conns as (fst (visit idf conns a st)) \<le> pending idf conns (a # as) (fst st)"
    by (rule pending_mono) (use 4 visited_grows_dom(1) in auto)
  then show ?case by auto
qed

section \<open>The evaluation rule of each component type\<close>

lemma js_ops_bool:
  "js_and (JBool a) (JBool b) = JBool (a \<and> b)"
  "js_or (JBool a) (JBool b) = JBool (a \<or> b)"
  "js_not (JBool a) = JBool (\<not> a)"
  "js_strict_neq (JBool a) (JBool b) = JBool (a \<noteq> b)"
  by (auto simp: js_and_def js_or_def js_not_def js_strict_neq_def)

text \<open>
  Claim C8. On boolean pins, \<^verbatim>\<open>compute()\<close> follows the rule table: AND gives
  \<open>in0 \<and> in1\<close>, OR gives \<open>in0 \<or> in1\<close>, XOR gives \<open>in0 \<noteq> in1\<close>, NOT gives \<open>\<not> in0\<close>,
  the half adder gives Sum \<open>= A \<noteq> B\<close> and Carry \<open>= A \<and> B\<close>, the full adder gives
  Sum \<open>= A \<oplus> B \<oplus> Cin\<close> and Cout \<open>= (A \<and> B) \<or> (Cin \<and> (A \<noteq> B))\<close>, and the 4:1
  multiplexer gives \<open>data[select1 * 2 + select0]\<close>. The value is both returned and
  stored in the component; \<open>c\<close> is any component, set to the type and pins named.
  The INPUT and OUTPUT pegs, which the claim does not list, return the value they
  hold and change nothing.
\<close>

theorem compute_rule_table:
  "compute (c\<lparr>ctype := AND, inputs := JArr [JBool a, JBool b]\<rparr>) =
     Inr (JBool (a \<and> b),
          c\<lparr>ctype := AND, inputs := JArr [JBool a, JBool b], c_output := JBool (a \<and> b)\<rparr>)
   \<and> compute (c\<lparr>ctype := OR, inputs := JArr [JBool a, JBool b]\<rparr>) =
     Inr (JBool (a \<or> b),
          c\<lparr>ctype := OR, inputs := JArr [JBool a, JBool b], c_output := JBool (a \<or> b)\<rparr>)
   \<and> compute (c\<lparr>ctype := XOR, inputs := JArr [JBool a, JBool b]\<rparr>) =
     Inr (JBool (a \<noteq> b),
          c\<lparr>ctype := XOR, inputs := JArr [JBool a, JBool b], c_output := JBool (a \<noteq> b)\<rparr>)
   \<and> compute (c\<lparr>ctype := NOT, inputs := JArr [JBool a]\<rparr>) =
     Inr (JBool (\<not> a), c\<lparr>ctype := NOT, inputs := JArr [JBool a], c_output := JBool (\<not> a)\<rparr>)
   \<and> compute (c\<lparr>ctype := HALF_ADDER, inputs := JArr [JBool a, JBool b],
                 outputs := JArr [o0, o1]\<rparr>) =
     Inr (JArr [JBool (a \<noteq> b), JBool (a \<and> b)],
          c\<lparr>ctype := HALF_ADDER, inputs := JArr [JBool a, JBool b],
            outputs := JArr [JBool (a \<noteq> b), JBool (a \<and> b)]\<rparr>)
   \<and> compute (c\<lparr>ctype := FULL_ADDER, inputs := JArr [JBool a, JBool b, JBool cin],
                 outputs := JArr [o0, o1]\<rparr>) =
     Inr (JArr [JBool ((a \<noteq> b) \<noteq> cin), JBool ((a \<and> b) \<or> (cin \<and> (a \<noteq> b)))],
          c\<lparr>ctype := FULL_ADDER, inputs := JArr [JBool a, JBool b, JBool cin],
            outputs := JArr [JBool ((a \<noteq> b) \<noteq> cin),
                             JBool ((a \<and> b) \<or> (cin \<and> (a \<noteq> b)))]\<rparr>)
   \<and> compute (c\<lparr>ctype := MUX_4TO1, dataInputs := [JBool d0, JBool d1, JBool d2, JBool d3],
                 selectInputs := [s0, s1]\<rparr>) =
     Inr (JBool ([d0, d1, d2, d3] ! ((if s1 then 1 else 0) * 2 + (if s0 then 1 else 0))),
          c\<lparr>ctype := MUX_4TO1, dataInputs := [JBool d0, JBool d1, JBool d2, JBool d3],
            selectInputs := [s0, s1],
            c_output := JBool ([d0, d1, d2, d3]
                                 ! ((if s1 then 1 else 0) * 2 + (if s0 then 1 else 0)))\<rparr>)
   \<and> compute (c\<lparr>ctype := INPUT\<rparr>) = Inr (c_value c, c\<lparr>ctype := INPUT\<rparr>)
   \<and> compute (c\<lparr>ctype := OUTPUT\<rparr>) = Inr (c_value c, c\<lparr>ctype := OUTPUT\<rparr>)"
  by (simp add: compute_def js_bind_def nth_or_undefined_def Let_def js_ops_bool)

section \<open>Adding components\<close>

lemma cid_constructors:
  "cid (ANDGate i px py) = i" "cid (ORGate i px py) = i" "cid (XORGate i px py) = i"
  "cid (NOTGate i px py) = i" "cid (InputComponent i n px py) = i"
  "cid (OutputComponent i n px py) = i"
  by (simp_all add: ANDGate_def ORGate_def XORGate_def NOTGate_def InputComponent_def
        OutputComponent_def CircuitComponent_def)

lemma ctype_constructors:
  "ctype (ANDGate i px py) = AND" "ctype (ORGate i px py) = OR" "ctype (XORGate i px py) = XOR"
  "ctype (NOTGate i px py) = NOT" "ctype (InputComponent i n px py) = INPUT"
  "ctype (OutputComponent i n px py) = OUTPUT"
  by (simp_all add: ANDGate_def ORGate_def XORGate_def NOTGate_def InputComponent_def
        OutputComponent_def CircuitComponent_def)

lemma make_component_supported:
  assumes "toUpperCase ty \<in> {''AND'', ''OR'', ''XOR'', ''NOT'', ''INPUT'', ''OUTPUT''}"
  shows "\<exists>c. make_component ty i px py l = Some c \<and> cid c = i
             \<and> type_name (ctype c) = toUpperCase ty"
  using assms
  by (auto simp: make_component_def Let_def cid_constructors ctype_constructors)

lemma make_component_unsupported:
  assumes "toUpperCase ty \<notin> {''AND'', ''OR'', ''XOR'', ''NOT'', ''INPUT'', ''OUTPUT''}"
  shows "make_component ty i px py l = None"
  using assms by (simp add: make_component_def Let_def)

lemma addComponent_Some:
  assumes "make_component ty i (case x of None \<Rightarrow> 100 | Some v \<Rightarrow> v)
             (case y of None \<Rightarrow> 100 | Some v \<Rightarrow> v) l = Some c"
  shows "addComponent ty i x y l s =
           (Inr (length (heap s)),
            s\<lparr>heap := heap s @ [c], components := components s @ [length (heap s)]\<rparr>)"
  using assms by (simp add: addComponent_def)

text \<open>
  Claim C5, as the code has it. \<^verbatim>\<open>addComponent\<close> never looks for the id among the
  components: when a component with the given id is already present and the type is
  one the switch knows (compared in upper case), the call succeeds. It appends one
  new component carrying the same id after the existing ones, and leaves every
  existing component object, the connections and the selection as they were.
\<close>

theorem addComponent_duplicate_id:
  assumes "a \<in> set (components s)" and "comp_id s a = i"
    and "toUpperCase ty \<in> {''AND'', ''OR'', ''XOR'', ''NOT'', ''INPUT'', ''OUTPUT''}"
  shows "fst (addComponent ty i x y l s) = Inr (length (heap s))
       \<and> components (snd (addComponent ty i x y l s)) = components s @ [length (heap s)]
       \<and> take (length (heap s)) (heap (snd (addComponent ty i x y l s))) = heap s
       \<and> length (heap (snd (addComponent ty i x y l s))) = Suc (length (heap s))
       \<and> comp_id (snd (addComponent ty i x y l s)) (length (heap s)) = i
       \<and> connections (snd (addComponent ty i x y l s)) = connections s
       \<and> selectedComponent (snd (addComponent ty i x y l s)) = selectedComponent s"
proof -
  obtain c where c: "make_component ty i (case x of None \<Rightarrow> 100 | Some v \<Rightarrow> v)
             (case y of None \<Rightarrow> 100 | Some v \<Rightarrow> v) l = Some c" "cid c = i"
    using make_component_supported [OF assms(3)] by blast
  show ?thesis
    by (simp add: addComponent_Some [OF c(1)] comp_id_def c(2))
qed

theorem addComponent_duplicate_id_witness:
  "0 \<in> set (components one_gate) \<and> comp_id one_gate 0 = ''g''
   \<and> toUpperCase ''AND'' \<in> {''AND'', ''OR'', ''XOR'', ''NOT'', ''INPUT'', ''OUTPUT''}
   \<and> fst (addComponent ''AND'' ''g'' None None None one_gate) = Inr 1
   \<and> components twin_gates = [0, 1]
   \<and> comp_id twin_gates 1 = ''g''"
proof -
  have h: "0 \<in> set (components one_gate)" "comp_id one_gate 0 = ''g''"
    "toUpperCase ''AND'' \<in> {''AND'', ''OR'', ''XOR'', ''NOT'', ''INPUT'', ''OUTPUT''}"
    by code_simp+
  have n: "length (heap one_gate) = 1" "components one_gate = [0]"
    by code_simp+
  show ?thesis
    using h addComponent_duplicate_id [OF h, of None None None]
    by (simp add: n twin_gates_def)
qed

text \<open>
  Against C5 as stated: the gate \<open>g\<close> is present, a second
  \<^verbatim>\<open>addComponent('AND', 'g')\<close> returns a component instead of failing, the graph
  has changed, and it now holds two components with the id \<open>g\<close>.
\<close>

theorem duplicate_id_accepted_counterexample:
  "comp_id one_gate 0 = ''g''
   \<and> fst (addComponent ''AND'' ''g'' None None None one_gate) = Inr 1
   \<and> snd (addComponent ''AND'' ''g'' None None None one_gate) \<noteq> one_gate
   \<and> map (comp_id twin_gates) (components twin_gates) = [''g'', ''g'']"
  by code_simp

text \<open>
  Claim C6, as the code has it. The type is compared in upper case. When its upper
  case is one of AND, OR, XOR, NOT, INPUT, OUTPUT, \<^verbatim>\<open>addComponent\<close> succeeds and
  appends a new component of that type with the given id. When its upper case is
  none of the nine names AND, OR, XOR, NOT, INPUT, OUTPUT, HALF_ADDER, FULL_ADDER,
  MUX_4TO1, the call throws \<^verbatim>\<open>Unknown component type\<close> and the graph is unchanged.
  The statement says nothing on HALF_ADDER, FULL_ADDER and MUX_4TO1.
\<close>

theorem addComponent_by_type:
  "(toUpperCase ty \<in> {''AND'', ''OR'', ''XOR'', ''NOT'', ''INPUT'', ''OUTPUT''} \<longrightarrow>
      fst (addComponent ty i x y l s) = Inr (length (heap s))
      \<and> components (snd (addComponent ty i x y l s)) = components s @ [length (heap s)]
      \<and> cid (heap (snd (addComponent ty i x y l s)) ! length (heap s)) = i
      \<and> type_name (ctype (heap (snd (addComponent ty i x y l s)) ! length (heap s)))
          = toUpperCase ty)
   \<and> (toUpperCase ty \<notin> {''AND'', ''OR'', ''XOR'', ''NOT'', ''INPUT'', ''OUTPUT'',
                          ''HALF_ADDER'', ''FULL_ADDER'', ''MUX_4TO1''} \<longrightarrow>
      addComponent ty i x y l s = (Inl (UnknownComponentType ty), s))"
proof (intro conjI impI)
  assume "toUpperCase ty \<notin> {''AND'', ''OR'', ''XOR'', ''NOT'', ''INPUT'', ''OUTPUT'',
                          ''HALF_ADDER'', ''FULL_ADDER'', ''MUX_4TO1''}"
  then have "toUpperCase ty \<notin> {''AND'', ''OR'', ''XOR'', ''NOT'', ''INPUT'', ''OUTPUT''}"
    by simp
  then show "addComponent ty i x y l s = (Inl (UnknownComponentType ty), s)"
    by (simp add: addComponent_def make_component_unsupported)
next
  assume sup: "toUpperCase ty \<in> {''AND'', ''OR'', ''XOR'', ''NOT'', ''INPUT'', ''OUTPUT''}"
  obtain c where c: "make_component ty i (case x of None \<Rightarrow> 100 | Some v \<Rightarrow> v)
             (case y of None \<Rightarrow> 100 | Some v \<Rightarrow> v) l = Some c" "cid c = i"
      "type_name (ctype c) = toUpperCase ty"
    using make_component_supported [OF sup] by blast
  show "fst (addComponent ty i x y l s) = Inr (length (heap s))"
    "components (snd (addComponent ty i x y l s)) = components s @ [length (heap s)]"
    "cid (heap (snd (addComponent ty i x y l s)) ! length (heap s)) = i"
    "type_name (ctype (heap (snd (addComponent ty i x y l s)) ! length (heap s))) = toUpperCase ty"
    by (simp_all add: addComponent_Some [OF c(1)] c)
qed

theorem addComponent_by_type_witness:
  "toUpperCase ''xor'' \<in> {''AND'', ''OR'', ''XOR'', ''NOT'', ''INPUT'', ''OUTPUT''}
   \<and> fst (addComponent ''xor'' ''x1'' None None None new_simulator) = Inr 0
   \<and> type_name (ctype (heap (snd (addComponent ''xor'' ''x1'' None None None new_simulator)) ! 0))
       = ''XOR''
   \<and> toUpperCase ''led'' \<notin> {''AND'', ''OR'', ''XOR'', ''NOT'', ''INPUT'', ''OUTPUT'',
                               ''HALF_ADDER'', ''FULL_ADDER'', ''MUX_4TO1''}
   \<and> addComponent ''led'' ''d1'' None None None new_simulator
       = (Inl (UnknownComponentType ''led''), new_simulator)"
proof -
  have a: "toUpperCase ''xor'' \<in> {''AND'', ''OR'', ''XOR'', ''NOT'', ''INPUT'', ''OUTPUT''}"
    by code_simp
  have b: "toUpperCase ''led'' \<notin> {''AND'', ''OR'', ''XOR'', ''NOT'', ''INPUT'', ''OUTPUT'',
                               ''HALF_ADDER'', ''FULL_ADDER'', ''MUX_4TO1''}"
    by code_simp
  have up: "toUpperCase ''xor'' = ''XOR''" "length (heap new_simulator) = 0"
    by code_simp+
  show ?thesis
    using a b
      addComponent_by_type [of "''xor''" "''x1''" None None None new_simulator]
      addComponent_by_type [of "''led''" "''d1''" None None None new_simulator]
    by (simp add: up)
qed

text \<open>
  Against C6 as stated: \<^verbatim>\<open>'and'\<close> is outside the variant set and is accepted;
  \<^verbatim>\<open>'FULL_ADDER'\<close> is in the variant set and is rejected, on the very call that
  \<^verbatim>\<open>CircuitTemplates.fullAdderCircuit\<close> makes.
\<close>

theorem type_set_counterexample:
  "''and'' \<notin> {''AND'', ''OR'', ''XOR'', ''NOT'', ''INPUT'', ''OUTPUT'',
                ''HALF_ADDER'', ''FULL_ADDER'', ''MUX_4TO1''}
   \<and> fst (addComponent ''and'' ''g'' None None None new_simulator) = Inr 0
   \<and> ''FULL_ADDER'' \<in> {''AND'', ''OR'', ''XOR'', ''NOT'', ''INPUT'', ''OUTPUT'',
                ''HALF_ADDER'', ''FULL_ADDER'', ''MUX_4TO1''}
   \<and> addComponent ''FULL_ADDER'' ''fa_1'' (Some 200) (Some 100) None new_simulator
       = (Inl (UnknownComponentType ''FULL_ADDER''), new_simulator)"
  by code_simp

section \<open>Removing a component\<close>

lemma findIndex_None: "findIndex P xs = None \<longleftrightarrow> (\<forall>x\<in>set xs. \<not> P x)"
  by (induction xs) auto

lemma findIndex_Some:
  "findIndex P xs = Some k \<Longrightarrow> k < length xs \<and> P (xs ! k) \<and> (\<forall>j<k. \<not> P (xs ! j))"
proof (induction xs arbitrary: k)
  case Nil
  then show ?case by simp
next
  case (Cons x xs)
  show ?case
  proof (cases "P x")
    case True
    with Cons.prems show ?thesis by simp
  next
    case False
    with Cons.prems obtain k' where k': "findIndex P xs = Some k'" "k = Suc k'"
      by auto
    from Cons.IH [OF k'(1)] False k'(2) show ?thesis
      by (auto simp: nth_Cons less_Suc_eq_0_disj)
  qed
qed

text \<open>
  Claim C7. \<^verbatim>\<open>removeComponent(id)\<close> changes nothing when no component has that id.
  Otherwise it removes the first component with that id from the list, keeps
  exactly the connections whose two ends both have another id, so that every
  connection from or to the removed component is gone and no remaining connection
  has \<^verbatim>\<open>from.id === id\<close> or \<^verbatim>\<open>to.id === id\<close>, and clears the selection when
  the removed component was selected.
\<close>

theorem removeComponent_cascade:
  "((\<forall>a\<in>set (components s). comp_id s a \<noteq> i) \<longrightarrow> removeComponent i s = s)
   \<and> ((\<exists>a\<in>set (components s). comp_id s a = i) \<longrightarrow>
        (\<exists>index<length (components s).
            comp_id s (components s ! index) = i
          \<and> (\<forall>j<index. comp_id s (components s ! j) \<noteq> i)
          \<and> components (removeComponent i s)
              = take index (components s) @ drop (Suc index) (components s)
          \<and> (selectedComponent s = Some (components s ! index)
               \<longrightarrow> selectedComponent (removeComponent i s) = None))
        \<and> connections (removeComponent i s)
            = filter (\<lambda>conn. comp_id s (c_from conn) \<noteq> i \<and> comp_id s (c_to conn) \<noteq> i)
                (connections s)
        \<and> (\<forall>conn\<in>set (connections (removeComponent i s)).
              comp_id (removeComponent i s) (c_from conn) \<noteq> i
            \<and> comp_id (removeComponent i s) (c_to conn) \<noteq> i)
        \<and> heap (removeComponent i s) = heap s)"
proof (intro conjI impI)
  assume "\<forall>a\<in>set (components s). comp_id s a \<noteq> i"
  then have "findIndex (\<lambda>a. comp_id s a = i) (components s) = None"
    by (simp add: findIndex_None)
  then show "removeComponent i s = s"
    by (simp add: removeComponent_def)
next
  assume "\<exists>a\<in>set (components s). comp_id s a = i"
  then obtain index where idx: "findIndex (\<lambda>a. comp_id s a = i) (components s) = Some index"
    using findIndex_None [of "\<lambda>a. comp_id s a = i" "components s"] by auto
  note first = findIndex_Some [OF idx]
  show "\<exists>index<length (components s).
            comp_id s (components s ! index) = i
          \<and> (\<forall>j<index. comp_id s (components s ! j) \<noteq> i)
          \<and> components (removeComponent i s)
              = take index (components s) @ drop (Suc index) (components s)
          \<and> (selectedComponent s = Some (components s ! index)
               \<longrightarrow> selectedComponent (removeComponent i s) = None)"
    using first by (intro exI [of _ index]) (simp add: removeComponent_def idx)
  show "connections (removeComponent i s)
            = filter (\<lambda>conn. comp_id s (c_from conn) \<noteq> i \<and> comp_id s (c_to conn) \<noteq> i)
                (connections s)"
    by (simp add: removeComponent_def idx)
  show "heap (removeComponent i s) = heap s"
    by (simp add: removeComponent_def idx)
  have conns: "connections (removeComponent i s)
            = filter (\<lambda>conn. comp_id s (c_from conn) \<noteq> i \<and> comp_id s (c_to conn) \<noteq> i)
                (connections s)"
    by (simp add: removeComponent_def idx)
  have "heap (removeComponent i s) = heap s"
    by (simp add: removeComponent_def idx)
  then have ids: "comp_id (removeComponent i s) = comp_id s"
    by (simp add: comp_id_def fun_eq_iff)
  show "\<forall>conn\<in>set (connections (removeComponent i s)).
              comp_id (removeComponent i s) (c_from conn) \<noteq> i
            \<and> comp_id (removeComponent i s) (c_to conn) \<noteq> i"
    by (simp add: conns ids)
qed

theorem removeComponent_cascade_witness:
  "(\<exists>a\<in>set (components chain_selected). comp_id chain_selected a = ''n1'')
   \<and> selectedComponent chain_selected = Some 1
   \<and> length (connections chain_selected) = 2
   \<and> components (removeComponent ''n1'' chain_selected) = [0, 2]
   \<and> connections (removeComponent ''n1'' chain_selected) = []
   \<and> selectedComponent (removeComponent ''n1'' chain_selected) = None
   \<and> \<not> (\<exists>a\<in>set (components chain_selected). comp_id chain_selected a = ''n3'')
   \<and> removeComponent ''n3'' chain_selected = chain_selected"
proof -
  have present: "\<exists>a\<in>set (components chain_selected). comp_id chain_selected a = ''n1''"
    by code_simp
  have absent: "\<forall>a\<in>set (components chain_selected). comp_id chain_selected a \<noteq> ''n3''"
    by code_simp
  have facts: "selectedComponent chain_selected = Some 1"
    "length (connections chain_selected) = 2"
    "components (removeComponent ''n1'' chain_selected) = [0, 2]"
    "connections (removeComponent ''n1'' chain_selected) = []"
    "selectedComponent (removeComponent ''n1'' chain_selected) = None"
    by code_simp+
  have "removeComponent ''n3'' chain_selected = chain_selected"
    using removeComponent_cascade [of chain_selected "''n3''"] absent by blast
  then show ?thesis
    using present absent facts by simp
qed

section \<open>What the evaluation order contains\<close>

lemma emits_refl: "emits idf st st []"
  by (simp add: emits_def)

lemma emits_trans:
  assumes "emits idf st st1 xs" and "emits idf st1 st2 ys"
  shows "emits idf st st2 (xs @ ys)"
  using assms unfolding emits_def by (auto simp: image_Un)

lemma emits_enter:
  assumes "idf a \<notin> visited"
    and "emits idf (insert (idf a) visited, result) (visited', result') new"
  shows "emits idf (visited, result) (visited', result' @ [a]) (new @ [a])"
  using assms unfolding emits_def by auto

lemma visit_emits:
  "\<exists>new. emits idf st (visit idf conns a st) new
         \<and> idf a \<in> fst (visit idf conns a st)
         \<and> set new \<subseteq> insert a (c_from ` set conns)"
  "\<exists>new. emits idf st (visit_each idf conns as st) new
         \<and> idf ` set as \<subseteq> fst (visit_each idf conns as st)
         \<and> set new \<subseteq> set as \<union> c_from ` set conns"
proof (induction idf conns a st and idf conns as st rule: visit_visit_each.induct)
  case (1 idf conns a visited result)
  show ?case
  proof (cases "idf a \<in> visited")
    case True
    then show ?thesis
      using emits_refl [of idf "(visited, result)"] by (intro exI [of _ "[]"]) simp
  next
    case False
    obtain visited' result' where r:
      "visit_each idf conns (feeders idf conns a) (insert (idf a) visited, result)
         = (visited', result')"
      by (cases "visit_each idf conns (feeders idf conns a) (insert (idf a) visited, result)")
    from 1 [OF False] r obtain new where new:
      "emits idf (insert (idf a) visited, result) (visited', result') new"
      "set new \<subseteq> set (feeders idf conns a) \<union> c_from ` set conns"
      by auto
    have v: "visit idf conns a (visited, result) = (visited', result' @ [a])"
      using False r by simp
    have "idf a \<in> visited'"
      using new(1) by (auto simp: emits_def)
    moreover have "set (new @ [a]) \<subseteq> insert a (c_from ` set conns)"
      using new(2) feeders_subset [of idf conns a] by auto
    ultimately show ?thesis
      using emits_enter [OF False new(1)] unfolding v by (intro exI [of _ "new @ [a]"]) simp
  qed
next
  case (2 idf conns st)
  show ?case using emits_refl [of idf st] by (intro exI [of _ "[]"]) simp
next
  case (3 idf conns a as st)
  from 3(1) obtain xs where xs: "emits idf st (visit idf conns a st) xs"
    "idf a \<in> fst (visit idf conns a st)" "set xs \<subseteq> insert a (c_from ` set conns)"
    by blast
  from 3(2) obtain ys where ys:
    "emits idf (visit idf conns a st) (visit_each idf conns as (visit idf conns a st)) ys"
    "idf ` set as \<subseteq> fst (visit_each idf conns as (visit idf conns a st))"
    "set ys \<subseteq> set as \<union> c_from ` set conns"
    by blast
  have "idf a \<in> fst (visit_each idf conns as (visit idf conns a st))"
    using xs(2) ys(1) by (auto simp: emits_def)
  then show ?case
    using emits_trans [OF xs(1) ys(1)] xs(3) ys(2,3)
    by (intro exI [of _ "xs @ ys"]) auto
qed

lemma topologicalSort_props:
  "distinct (map (comp_id s) (topologicalSort s))"
  "comp_id s ` set (components s) \<subseteq> comp_id s ` set (topologicalSort s)"
  "set (topologicalSort s) \<subseteq> set (components s) \<union> c_from ` set (connections s)"
proof -
  obtain new where new:
    "emits (comp_id s) ({}, []) (visit_each (comp_id s) (connections s) (components s) ({}, [])) new"
    "comp_id s ` set (components s)
       \<subseteq> fst (visit_each (comp_id s) (connections s) (components s) ({}, []))"
    "set new \<subseteq> set (components s) \<union> c_from ` set (connections s)"
    using visit_emits(2) [of "comp_id s" "({}, [])" "connections s" "components s"] by blast
  have eq: "topologicalSort s = new"
    using new(1) by (simp add: topologicalSort_def emits_def)
  show "distinct (map (comp_id s) (topologicalSort s))"
    using new(1) by (simp add: eq emits_def)
  show "comp_id s ` set (components s) \<subseteq> comp_id s ` set (topologicalSort s)"
    using new(1,2) by (simp add: eq emits_def)
  show "set (topologicalSort s) \<subseteq> set (components s) \<union> c_from ` set (connections s)"
    using new(3) by (simp add: eq)
qed

text \<open>
  Claim C10, as the code has it. \<^verbatim>\<open>topologicalSort()\<close> ends on every graph, with
  or without a cycle: \<open>visit\<close> is a total function, by the termination proof above.
  The visited set holds ids, not components, so a component whose id was already
  seen is skipped. When the ids of the components are pairwise different and every
  connection starts at a component of the graph, the list returned holds each
  component of the graph exactly once.
\<close>

theorem topologicalSort_each_once:
  assumes "distinct (map (comp_id s) (components s))"
    and "c_from ` set (connections s) \<subseteq> set (components s)"
  shows "distinct (topologicalSort s) \<and> set (topologicalSort s) = set (components s)"
proof -
  have sub: "set (topologicalSort s) \<subseteq> set (components s)"
    using topologicalSort_props(3) [of s] assms(2) by auto
  have inj: "inj_on (comp_id s) (set (components s))"
    using assms(1) by (simp add: distinct_map)
  have "set (components s) \<subseteq> set (topologicalSort s)"
  proof
    fix a assume a: "a \<in> set (components s)"
    then obtain b where b: "b \<in> set (topologicalSort s)" "comp_id s b = comp_id s a"
      using topologicalSort_props(2) [of s] by force
    with sub a inj have "b = a" by (auto dest: inj_onD)
    with b show "a \<in> set (topologicalSort s)" by simp
  qed
  moreover have "distinct (topologicalSort s)"
    using topologicalSort_props(1) [of s] by (simp add: distinct_map)
  ultimately show ?thesis using sub by auto
qed

theorem topologicalSort_each_once_witness:
  "distinct (map (comp_id loop_circuit) (components loop_circuit))
   \<and> c_from ` set (connections loop_circuit) \<subseteq> set (components loop_circuit)
   \<and> map c_from (connections loop_circuit) = [0, 1]
   \<and> map c_to (connections loop_circuit) = [1, 0]
   \<and> distinct (topologicalSort loop_circuit)
   \<and> set (topologicalSort loop_circuit) = set (components loop_circuit)"
proof -
  have h: "distinct (map (comp_id loop_circuit) (components loop_circuit))"
    "c_from ` set (connections loop_circuit) \<subseteq> set (components loop_circuit)"
    by code_simp+
  have wires: "map c_from (connections loop_circuit) = [0, 1]"
    "map c_to (connections loop_circuit) = [1, 0]"
    by code_simp+
  show ?thesis
    using h wires topologicalSort_each_once [OF h] by simp
qed

text \<open>
  Against C10 as stated: of the two gates with the id \<open>g\<close>, only the first is in
  the list returned.
\<close>

theorem twin_skipped_counterexample:
  "components twin_gates = [0, 1]
   \<and> map (comp_id twin_gates) (components twin_gates) = [''g'', ''g'']
   \<and> connections twin_gates = []
   \<and> topologicalSort twin_gates = [0]"
  by code_simp

section \<open>Simulation never rejects a cycle\<close>

































section \<open>One call of simulate on a chain\<close>

text \<open>
  Claim C1 fails on the code. In the chain \<open>A\<close>, \<open>n1\<close>, \<open>n2\<close> with \<open>A\<close> off, which
  has no cycle, the first \<^verbatim>\<open>simulate()\<close> leaves \<open>n2.output = true\<close> and a second
  call, with nothing changed in between, leaves \<open>n2.output = false\<close>: the first
  loop computes every gate from the pins of the previous call, and the pins are
  only refreshed by the second loop.
\<close>

theorem simulate_twice_differs:
  "map (comp_id chain_circuit) (components chain_circuit) = [''A'', ''n1'', ''n2'']
   \<and> map c_from (connections chain_circuit) = [0, 1]
   \<and> map c_to (connections chain_circuit) = [1, 2]
   \<and> fst (simulate chain_circuit) = None
   \<and> fst (simulate (snd (simulate chain_circuit))) = None
   \<and> map c_output (heap (snd (simulate chain_circuit)))
       = [JUndefined, JBool True, JBool True]
   \<and> map c_output (heap (snd (simulate (snd (simulate chain_circuit)))))
       = [JUndefined, JBool True, JBool False]"
  by code_simp

text \<open>
  Claim C2, as the code has it. In the chain \<open>A\<close>, \<open>n1\<close>, \<open>n2\<close> with \<open>A\<close>
  toggled on, one call of \<^verbatim>\<open>simulate()\<close> raises nothing and leaves
  \<open>n1.output = false\<close> and \<open>n2.output = true\<close>. The evaluation pass alone leaves
  both outputs \<open>true\<close>: \<open>n2.output\<close> has its final value from then on, and
  \<open>n1.output\<close> turns \<open>false\<close> in the propagation pass.
\<close>

theorem chain_two_layers:
  "map (comp_id chain_on) (components chain_on) = [''A'', ''n1'', ''n2'']
   \<and> c_value (heap chain_on ! 0) = JBool True
   \<and> c_output (heap (snd (evaluate_all chain_on)) ! 1) = JBool True
   \<and> c_output (heap (snd (evaluate_all chain_on)) ! 2) = JBool True
   \<and> fst (simulate chain_on) = None
   \<and> c_output (heap (snd (simulate chain_on)) ! 1) = JBool False
   \<and> c_output (heap (snd (simulate chain_on)) ! 2) = JBool True"
  by code_simp

text \<open>
  Against C2 as stated: \<open>n1\<close> is evaluated again in the propagation pass, after
  it received its new input. The first loop leaves \<open>n1\<close> with the input
  \<open>false\<close> and the output \<open>true\<close>; the second loop writes \<open>true\<close> into its
  pin and then, through \<^verbatim>\<open>connection.from.compute()\<close>, sets its output to \<open>false\<close>.
\<close>

theorem chain_reevaluated_counterexample:
  "fst (evaluate_all chain_on) = None
   \<and> inputs (heap (snd (evaluate_all chain_on)) ! 1) = JArr [JBool False]
   \<and> c_output (heap (snd (evaluate_all chain_on)) ! 1) = JBool True
   \<and> simulate chain_on = propagate_all (snd (evaluate_all chain_on))
   \<and> inputs (heap (snd (simulate chain_on)) ! 1) = JArr [JBool True]
   \<and> c_output (heap (snd (simulate chain_on)) ! 1) = JBool False"
  by code_simp

section \<open>Export followed by import\<close>

text \<open>
  Claim C4 fails on the code. The circuit \<open>a\<close> (off), NOT \<open>n\<close>, OUTPUT \<open>o\<close> is
  settled: \<open>n.output\<close> and \<open>o.value\<close> are \<open>true\<close> and another \<^verbatim>\<open>simulate()\<close>
  changes nothing. \<^verbatim>\<open>exportCircuit\<close> writes \<^verbatim>\<open>c.value || c.inputs\<close>, which for the
  peg that is off is its empty array of pins; \<^verbatim>\<open>importCircuit\<close> stores that array
  as the value of the new peg, where it counts as true. After the import and one
  \<^verbatim>\<open>simulate()\<close>, \<open>n.output\<close> and \<open>o.value\<close> are \<open>false\<close>.
\<close>

theorem roundtrip_display_differs:
  "simulate display_circuit = (None, display_circuit)
   \<and> components display_circuit = [0, 1, 2]
   \<and> map (comp_id display_circuit) (components display_circuit) = [''a'', ''n'', ''o'']
   \<and> c_value (heap display_circuit ! 0) = JBool False
   \<and> c_output (heap display_circuit ! 1) = JBool True
   \<and> c_value (heap display_circuit ! 2) = JBool True
   \<and> d_value (d_components (exportCircuit display_circuit) ! 0) = JArr []
   \<and> fst (importCircuit (exportCircuit display_circuit) display_circuit) = None
   \<and> components display_reimported = [3, 4, 5]
   \<and> map (comp_id display_reimported) (components display_reimported) = [''a'', ''n'', ''o'']
   \<and> c_value (heap display_reimported ! 3) = JArr []
   \<and> c_output (heap display_reimported ! 4) = JBool False
   \<and> c_value (heap display_reimported ! 5) = JBool False"
  by code_simp

section \<open>Truth table rows\<close>

lemma row_bit_eq:
  assumes "numInputs \<le> 32" and "index < numInputs"
  shows "row_bit numInputs i index = (i div 2 ^ (numInputs - 1 - index)) mod 2"
proof -
  define k where "k = numInputs - 1 - index"
  have k: "k < 32" using assms by (simp add: k_def)
  have "bit (signed_drop_bit k (word_of_nat i :: 32 word)) 0 = bit i k"
    using k by (simp add: bit_signed_drop_bit_iff bit_of_nat_iff)
  then have "odd (signed_drop_bit k (word_of_nat i :: 32 word)) = odd (i div 2 ^ k)"
    by (simp add: bit_0 bit_nat_def)
  then have "unat (and (signed_drop_bit k (word_of_nat i :: 32 word)) 1) = (i div 2 ^ k) mod 2"
    by (simp add: and_one_eq mod_2_eq_odd)
  then show ?thesis
    unfolding row_bit_def k_def [symmetric] using k by simp
qed

lemma fold_update_other:
  assumes F: "\<And>n j r. F (n, j) r = r(n \<mapsto> g j)"
  shows "k \<notin> fst ` set ps \<Longrightarrow> fold F ps r0 k = r0 k"
  by (induction ps arbitrary: r0) (auto simp: F)

lemma fold_update_distinct:
  assumes F: "\<And>n j r. F (n, j) r = r(n \<mapsto> g j)"
  shows "distinct (map fst ps) \<Longrightarrow> (k, j) \<in> set ps \<Longrightarrow> fold F ps r0 k = Some (g j)"
proof (induction ps arbitrary: r0)
  case Nil
  then show ?case by simp
next
  case (Cons p ps)
  show ?case
  proof (cases "p = (k, j)")
    case True
    with Cons.prems(1) have "k \<notin> fst ` set ps" by auto
    then have "fold F ps (r0(k \<mapsto> g j)) k = (r0(k \<mapsto> g j)) k"
      by (rule fold_update_other [OF F])
    with True show ?thesis by (simp add: F)
  next
    case False
    with Cons.prems have "(k, j) \<in> set ps" "distinct (map fst ps)" by auto
    with Cons.IH show ?thesis by simp
  qed
qed

lemma dom_fold_update:
  assumes F: "\<And>n j r. F (n, j) r = r(n \<mapsto> g j)"
  shows "dom (fold F ps r0) = dom r0 \<union> fst ` set ps"
  by (induction ps arbitrary: r0) (auto simp: F)

lemma row_inputs_nth:
  assumes "distinct names" and "index < length names"
  shows "row_inputs names i (names ! index) = Some (row_bit (length names) i index)"
proof -
  have "distinct (map fst (zip names [0..<length names]))"
    using assms(1) by simp
  moreover have "(names ! index, index) \<in> set (zip names [0..<length names])"
    using assms(2) by (auto simp: set_zip intro!: exI [of _ index])
  ultimately show ?thesis
    unfolding row_inputs_def by (rule fold_update_distinct [rotated]) (auto simp: fun_eq_iff)
qed

lemma dom_row_inputs: "dom (row_inputs names i) = set names"
proof -
  have "fst ` set (zip names [0..<length names]) = set (map fst (zip names [0..<length names]))"
    by (simp only: set_map)
  also have "\<dots> = set names"
    by (simp only: map_fst_zip length_upt diff_zero)
  finally have z: "fst ` set (zip names [0..<length names]) = set names" .
  have "dom (row_inputs names i) = dom (Map.empty :: string \<rightharpoonup> nat)
          \<union> fst ` set (zip names [0..<length names])"
    unfolding row_inputs_def by (rule dom_fold_update) (auto simp: fun_eq_iff)
  then show ?thesis
    unfolding z by simp
qed

lemma row_inputs_values:
  assumes "distinct names"
  shows "map (\<lambda>name. case row_inputs names i name of Some b \<Rightarrow> b | None \<Rightarrow> 0) names
         = map (row_bit (length names) i) [0..<length names]"
  using assms by (intro nth_equalityI) (simp_all add: row_inputs_nth)

lemma generate_rows_distinct:
  assumes "distinct names" and "''output'' \<notin> set names" and "length names < 32"
  shows "\<exists>rows. generate names (Some f) = Inr rows
           \<and> length rows = 2 ^ length names
           \<and> (\<forall>i<2 ^ length names. dom (rows ! i) = insert ''output'' (set names))
           \<and> (\<forall>i<2 ^ length names. \<forall>index<length names.
                 (rows ! i) (names ! index)
                   = Some (Num ((i div 2 ^ (length names - 1 - index)) mod 2)))
           \<and> (\<forall>i<2 ^ length names.
                 (rows ! i) ''output''
                   = Some (Res (f (map (\<lambda>index. (i div 2 ^ (length names - 1 - index)) mod 2)
                                     [0..<length names]))))"
proof -
  let ?n = "length names"
  have small: "\<not> (2::nat) ^ ?n > 2 ^ 32 - 1"
  proof -
    have "(2::nat) ^ ?n < 2 ^ 32" using assms(3) by (rule power_strict_increasing) simp
    then show ?thesis by simp
  qed
  have gen: "generate names (Some f) = Inr (map (make_row names (Some f)) [0..<2 ^ ?n])"
    using small by (simp add: generate_def Let_def)
  have bits: "map (row_bit ?n i) [0..<?n]
              = map (\<lambda>index. (i div 2 ^ (?n - 1 - index)) mod 2) [0..<?n]" for i
    using assms(3) by (simp add: row_bit_eq)
  have keys: "dom (make_row names (Some f) i) = insert ''output'' (set names)" for i
    by (simp add: make_row_def Let_def dom_row_inputs)
  have out: "make_row names (Some f) i ''output''
        = Some (Res (f (map (\<lambda>index. (i div 2 ^ (?n - 1 - index)) mod 2) [0..<?n])))" for i
    using row_inputs_values [OF assms(1), of i] bits [of i]
    by (simp add: make_row_def Let_def)
  have pin: "make_row names (Some f) i (names ! index)
        = Some (Num ((i div 2 ^ (?n - 1 - index)) mod 2))" if idx: "index < ?n" for i index
  proof -
    have "names ! index \<noteq> ''output''" using assms(2) idx by (metis nth_mem)
    then show ?thesis
      using row_inputs_nth [OF assms(1) idx, of i] assms(3) idx
      by (simp add: make_row_def Let_def row_bit_eq)
  qed
  show ?thesis
    unfolding gen using keys out pin
    by (intro exI [of _ "map (make_row names (Some f)) [0..<2 ^ ?n]"]) simp
qed

lemma row_bit_2:
  "row_bit (Suc (Suc 0)) i 0 = (i div 2) mod 2" "row_bit (Suc (Suc 0)) i (Suc 0) = i mod 2"
  using row_bit_eq [of 2 0 i] row_bit_eq [of 2 1 i] by (simp_all add: numeral_2_eq_2)

lemma upt_4: "[0..<4] = [0, 1, 2, 3]"
  by (simp add: upt_rec)

lemma generate_example:
  "generate [''A'', ''B''] (Some and_fn) =
   Inr [[''A'' \<mapsto> Num 0, ''B'' \<mapsto> Num 0, ''output'' \<mapsto> Res 0],
        [''A'' \<mapsto> Num 0, ''B'' \<mapsto> Num 1, ''output'' \<mapsto> Res 0],
        [''A'' \<mapsto> Num 1, ''B'' \<mapsto> Num 0, ''output'' \<mapsto> Res 0],
        [''A'' \<mapsto> Num 1, ''B'' \<mapsto> Num 1, ''output'' \<mapsto> Res 1]]"
  by (simp add: generate_def upt_4 make_row_def row_inputs_def and_fn_def fun_eq_iff
        Let_def row_bit_2)

text \<open>Thirty-two names ask for \<open>2 ^ 32\<close> rows, one more than an array can hold.\<close>

lemma generate_32_names_overflow:
  "length names = 32 \<Longrightarrow> generate names outputFunction = Inl RangeError"
  by (simp add: generate_def)

text \<open>
  Claim C9, as the code has it. For pairwise different input names, none of them
  \<^verbatim>\<open>output\<close> or \<^verbatim>\<open>__proto__\<close>, and fewer than 32 of them, \<^verbatim>\<open>generate\<close> with a
  caller's function returns exactly \<open>2 ^ N\<close> rows; row \<open>i\<close> holds under
  \<open>inputNames[index]\<close> the bit \<open>N - 1 - index\<close> of \<open>i\<close>, under \<^verbatim>\<open>output\<close> the
  function applied to these bits in the order of the names, and no other key. In
  particular \<^verbatim>\<open>generate(['A','B'], (a,b) => a && b)\<close> is the four rows
  \<open>{A:0,B:0,output:0}\<close>, \<open>{A:0,B:1,output:0}\<close>, \<open>{A:1,B:0,output:0}\<close>,
  \<open>{A:1,B:1,output:1}\<close>.
\<close>

theorem generate_truth_table:
  "(distinct names \<and> ''output'' \<notin> set names \<and> ''__proto__'' \<notin> set names
      \<and> length names < 32 \<longrightarrow>
      (\<exists>rows. generate names (Some f) = Inr rows
           \<and> length rows = 2 ^ length names
           \<and> (\<forall>i<2 ^ length names. dom (rows ! i) = insert ''output'' (set names))
           \<and> (\<forall>i<2 ^ length names. \<forall>index<length names.
                 (rows ! i) (names ! index)
                   = Some (Num ((i div 2 ^ (length names - 1 - index)) mod 2)))
           \<and> (\<forall>i<2 ^ length names.
                 (rows ! i) ''output''
                   = Some (Res (f (map (\<lambda>index. (i div 2 ^ (length names - 1 - index)) mod 2)
                                     [0..<length names]))))))
   \<and> generate [''A'', ''B''] (Some and_fn) =
       Inr [[''A'' \<mapsto> Num 0, ''B'' \<mapsto> Num 0, ''output'' \<mapsto> Res 0],
            [''A'' \<mapsto> Num 0, ''B'' \<mapsto> Num 1, ''output'' \<mapsto> Res 0],
            [''A'' \<mapsto> Num 1, ''B'' \<mapsto> Num 0, ''output'' \<mapsto> Res 0],
            [''A'' \<mapsto> Num 1, ''B'' \<mapsto> Num 1, ''output'' \<mapsto> Res 1]]"
  using generate_rows_distinct [of names f] generate_example by blast

theorem generate_truth_table_witness:
  "distinct [''A'', ''B'', ''C''] \<and> ''output'' \<notin> set [''A'', ''B'', ''C'']
   \<and> ''__proto__'' \<notin> set [''A'', ''B'', ''C''] \<and> length [''A'', ''B'', ''C''] < 32
   \<and> (\<exists>rows. generate [''A'', ''B'', ''C''] (Some and_fn) = Inr rows \<and> length rows = 8
          \<and> (rows ! 6) ''A'' = Some (Num 1) \<and> (rows ! 6) ''B'' = Some (Num 1)
          \<and> (rows ! 6) ''C'' = Some (Num 0) \<and> (rows ! 6) ''output'' = Some (Res 1))"
proof -
  let ?names = "[''A'', ''B'', ''C'']"
  have h: "distinct ?names \<and> ''output'' \<notin> set ?names \<and> ''__proto__'' \<notin> set ?names
      \<and> length ?names < 32"
    by simp
  from generate_truth_table [of ?names and_fn] h obtain rows where rows:
    "generate ?names (Some and_fn) = Inr rows" "length rows = 2 ^ length ?names"
    "\<forall>i<2 ^ length ?names. \<forall>index<length ?names.
         (rows ! i) (?names ! index)
           = Some (Num ((i div 2 ^ (length ?names - 1 - index)) mod 2))"
    "\<forall>i<2 ^ length ?names.
         (rows ! i) ''output''
           = Some (Res (and_fn (map (\<lambda>index. (i div 2 ^ (length ?names - 1 - index)) mod 2)
                                  [0..<length ?names])))"
    by blast
  have "(rows ! 6) ''A'' = Some (Num 1)"
    using rows(3) [rule_format, of 6 0] by simp
  moreover have "(rows ! 6) ''B'' = Some (Num 1)"
    using rows(3) [rule_format, of 6 1] by simp
  moreover have "(rows ! 6) ''C'' = Some (Num 0)"
    using rows(3) [rule_format, of 6 2] by simp
  moreover have "[0..<3] = [0, Suc 0, 2]" by (simp add: upt_rec)
  then have "(rows ! 6) ''output'' = Some (Res 1)"
    using rows(4) [rule_format, of 6] by (simp add: and_fn_def)
  ultimately show ?thesis using rows(1,2) h by simp
qed

text \<open>
  Against C9 as stated: with the name \<open>A\<close> given twice, row 1 and row 2 hold
  under \<open>A\<close> the lowest bit of the row number, where the first name should hold
  the highest; and the function receives that bit twice, so row 1 has the output 1
  where \<open>0 && 1\<close> is 0.
\<close>

theorem generate_duplicate_names_counterexample:
  "generate [''A'', ''A''] (Some and_fn) =
   Inr [[''A'' \<mapsto> Num 0, ''output'' \<mapsto> Res 0],
        [''A'' \<mapsto> Num 1, ''output'' \<mapsto> Res 1],
        [''A'' \<mapsto> Num 0, ''output'' \<mapsto> Res 0],
        [''A'' \<mapsto> Num 1, ''output'' \<mapsto> Res 1]]"
  by (simp add: generate_def upt_4 make_row_def row_inputs_def and_fn_def fun_eq_iff
        Let_def row_bit_2)

end
